theory Spec2Isabelle
  imports Main
begin

section \<open>The todo list view (src/client/components/TodoList.tsx)\<close>

text \<open>
  The component \<open>TodoList\<close> holds one piece of local state (\<open>activeTab\<close>), reads the
  todos through the query hook \<open>api.todo.getAll.useQuery\<close>, and sends two mutations
  (\<open>api.todoStatus.update\<close>, \<open>api.todo.delete\<close>). The embedding has three layers:
  \<^item> the data and the pure expressions of the component (the query input, the two
    handlers, the rendered rows), one definition per source expression;
  \<^item> the state of the view: \<open>activeTab\<close>, the results the query hook holds for
    each query input, and the query inputs it has a fetch in flight for;
  \<^item> a step function over the events the component reacts to (the gestures of the user
    and the settling of each remote call), which returns the new state and the requests
    sent to the remote service.
\<close>

subsection \<open>Data\<close>

text \<open>
  A todo's status has the type \<open>'completed' | 'pending'\<close>. \<open>status_lit\<close> is the string
  literal each value is at run time, which is what the query input carries.
\<close>

datatype status = Pending | Completed

fun status_lit :: "status \<Rightarrow> string" where
  "status_lit Pending = ''pending''"
| "status_lit Completed = ''completed''"

text \<open>
  The fields of a todo the component reads: \<open>todo.id\<close> (a number; the handlers take
  \<open>todoId: number\<close>), \<open>todo.body\<close> and \<open>todo.status\<close>.
\<close>

record todo =
  id_todo :: int
  body :: string
  status :: status

text \<open>
  The calls the component makes on the remote service, each with its input:
  \<open>api.todo.getAll.useQuery({ statuses })\<close>, \<open>updateTodoStatus({ todoId, status })\<close> and
  \<open>deleteTodo({ id })\<close>.
\<close>

datatype request =
    GetAll "string list"
  | UpdateTodoStatus int status
  | DeleteTodo int

subsection \<open>State\<close>

text \<open>
  \<open>activeTab\<close> is declared as \<open>'all' | 'pending' | 'completed'\<close>, but \<open>handleTabChange\<close>
  takes \<open>value: string\<close> and stores it under an unchecked cast, so at run time the state
  holds whatever string it was given: it is a \<open>string\<close> here, and that it is one of the
  three literals is a property to prove.

  \<open>results\<close> is what the query hook holds: for each query input, the todos of the last
  fetch that succeeded for it, or nothing when none has. \<open>fetching\<close> is the set of query
  inputs for which a fetch has been sent and has not settled yet.

  \<open>initial\<close> is the view once mounted: \<open>useState\<close> gives \<open>all\<close>, no result has arrived,
  and the hook has sent the fetch of its input.
\<close>

record view =
  activeTab :: string
  results :: "string list \<rightharpoonup> todo list"
  fetching :: "string list set"

definition handleTabChange :: "string \<Rightarrow> view \<Rightarrow> view" where
  "handleTabChange v s = s\<lparr>activeTab := v\<rparr>"

text \<open>
  The input of the query:
  \<open>statuses: activeTab === 'all' ? ['completed', 'pending'] : [activeTab]\<close>.
\<close>

definition statuses :: "string \<Rightarrow> string list" where
  "statuses tab = (if tab = ''all'' then [''completed'', ''pending''] else [tab])"

definition initial :: view where
  "initial = \<lparr>activeTab = ''all'', results = Map.empty, fetching = {statuses ''all''}\<rparr>"

text \<open>
  \<open>const { data: todos = [], refetch: refetchTodos } = ...useQuery(...)\<close>: \<open>data\<close> is
  undefined until a fetch for the current input has succeeded, and \<open>todos\<close> defaults to
  the empty array then. \<open>refetchTodos\<close> is bound to the query the hook is on: the request
  below is the one it stands for, and \<open>refetch\<close> further down is what calling it does.
\<close>

definition data :: "view \<Rightarrow> todo list option" where
  "data s = results s (statuses (activeTab s))"

definition todos :: "view \<Rightarrow> todo list" where
  "todos s = (case data s of None \<Rightarrow> [] | Some ts \<Rightarrow> ts)"

definition refetchTodos :: "view \<Rightarrow> request" where
  "refetchTodos s = GetAll (statuses (activeTab s))"

subsection \<open>Handlers\<close>

definition handleCheckboxChange :: "int \<Rightarrow> status \<Rightarrow> request" where
  "handleCheckboxChange todoId st =
     UpdateTodoStatus todoId (if st = Completed then Pending else Completed)"

definition handleDelete :: "int \<Rightarrow> request" where
  "handleDelete todoId = DeleteTodo todoId"

subsection \<open>Rendering\<close>

text \<open>
  \<open>String(todo.id)\<close> on an integer: its decimal digits, with a minus sign below zero
  (ids are integers well inside the range where a number prints without an exponent).
\<close>

fun digits :: "nat \<Rightarrow> string" where
  "digits n =
     (if n < 10 then [''0123456789'' ! n]
      else digits (n div 10) @ [''0123456789'' ! (n mod 10)])"

declare digits.simps [simp del]

definition String_number :: "int \<Rightarrow> string" where
  "String_number n = (if n < 0 then CHR ''-'' # digits (nat (- n)) else digits (nat n))"

text \<open>
  What one \<open>Tabs.Trigger\<close> and one \<open>li\<close> of the returned tree carry. Of each element the
  attributes that depend on the state or that are read below are kept, with the name of
  the element in front; the two icons are the child of the checkbox indicator and of the
  delete button. Event handlers are kept as the request they send when they fire.
\<close>

datatype icon = XMarkIcon | CheckIcon

datatype child = Svg icon | Text string

record trigger =
  trigger_className :: string
  trigger_value :: string
  trigger_children :: "child list"

record row =
  li_key :: int
  li_className :: string
  checkbox_id :: string
  checkbox_checked :: bool
  checkbox_onCheckedChange :: request
  indicator_children :: "child list"
  label_className :: string
  label_htmlFor :: string
  label_children :: "child list"
  button_onClick :: request
  button_aria_label :: string
  button_children :: "child list"

record tree =
  tabs_value :: string
  triggers :: "trigger list"
  rows :: "row list"

definition trigger_class :: "string \<Rightarrow> string \<Rightarrow> string" where
  "trigger_class tab v =
     ''mr-2 rounded-full border-2 px-4 py-2 focus:outline-none data-[state=active]:border-b-2 data-[state=active]:border-gray-700 data-[state=active]:font-medium ''
     @ (if tab = v then ''border-gray-700 bg-gray-700 font-medium text-white''
        else ''border-gray-200 text-gray-500 hover:border-gray-500 hover:text-gray-700'')"

definition render_triggers :: "string \<Rightarrow> trigger list" where
  "render_triggers tab =
     [\<lparr>trigger_className = trigger_class tab ''all'', trigger_value = ''all'',
       trigger_children = [Text ''All'']\<rparr>,
      \<lparr>trigger_className = trigger_class tab ''pending'', trigger_value = ''pending'',
       trigger_children = [Text ''Pending'']\<rparr>,
      \<lparr>trigger_className = trigger_class tab ''completed'', trigger_value = ''completed'',
       trigger_children = [Text ''Completed'']\<rparr>]"

definition render_row :: "todo \<Rightarrow> row" where
  "render_row t =
     \<lparr>li_key = id_todo t,
      li_className = ''rounded-12 border px-4 py-3 shadow-sm ''
        @ (if status t = Completed then ''border-gray-200 bg-gray-50'' else ''border-gray-200''),
      checkbox_id = String_number (id_todo t),
      checkbox_checked = (status t = Completed),
      checkbox_onCheckedChange = handleCheckboxChange (id_todo t) (status t),
      indicator_children = [Svg CheckIcon],
      label_className = ''block pl-3 font-medium ''
        @ (if status t = Completed then ''text-gray-400 line-through'' else []),
      label_htmlFor = String_number (id_todo t),
      label_children = [Text (body t)],
      button_onClick = handleDelete (id_todo t),
      button_aria_label = ''Delete todo'',
      button_children = [Svg XMarkIcon]\<rparr>"

definition render :: "view \<Rightarrow> tree" where
  "render s =
     \<lparr>tabs_value = activeTab s,
      triggers = render_triggers (activeTab s),
      rows = map render_row (todos s)\<rparr>"

text \<open>
  A \<open>className\<close> is a list of class names separated by spaces. The label is struck
  through when the class \<open>line-through\<close> is among them.
\<close>

fun class_names :: "string \<Rightarrow> string \<Rightarrow> string list" where
  "class_names cur [] = (if cur = [] then [] else [cur])"
| "class_names cur (c # cs) =
     (if c = CHR '' '' then (if cur = [] then class_names [] cs else cur # class_names [] cs)
      else class_names (cur @ [c]) cs)"

definition has_class :: "string \<Rightarrow> string \<Rightarrow> bool" where
  "has_class c cn = (c \<in> set (class_names [] cn))"

definition strike_through :: "row \<Rightarrow> bool" where
  "strike_through r = has_class ''line-through'' (label_className r)"

subsection \<open>Events\<close>

text \<open>
  The events the component reacts to. Three come from the rendered controls:
  \<open>onValueChange\<close> of the tabs with the value of the trigger, \<open>onCheckedChange\<close> of the
  checkbox of a todo's row, \<open>onClick\<close> of the delete button of a todo's row. The others are
  a remote call settling: the query for an input, with the todos it returns, or either
  mutation. A fetch settles once: \<open>GetAllError\<close> is its failure after the retries the hook
  makes on its own, and the answer to a fetch the hook has cancelled is no event. The
  component gives the mutations an \<open>onSuccess\<close> callback, which calls \<open>refetchTodos()\<close>,
  and no \<open>onError\<close> callback.

  The query hook is the library's, with its default options. Sending the query of the
  hook puts its input in flight (\<open>start_fetch\<close>). A new value of \<open>activeTab\<close> gives the hook
  a new input, which it fetches unless a fetch for that input is in flight already, which
  it then waits for (\<open>fetch_input\<close>). \<open>refetchTodos()\<close> sends the query again, and drops a
  fetch in flight for it, when the query has data; when the query has no data yet and its
  first fetch is in flight, it waits for that fetch and sends nothing (\<open>refetch\<close>).
\<close>

definition start_fetch :: "view \<Rightarrow> view \<times> request list" where
  "start_fetch s =
     (s\<lparr>fetching := insert (statuses (activeTab s)) (fetching s)\<rparr>, [refetchTodos s])"

definition fetch_input :: "view \<Rightarrow> view \<times> request list" where
  "fetch_input s =
     (if statuses (activeTab s) \<in> fetching s then (s, []) else start_fetch s)"

definition refetch :: "view \<Rightarrow> view \<times> request list" where
  "refetch s =
     (if statuses (activeTab s) \<in> fetching s \<and> data s = None then (s, [])
      else start_fetch s)"

datatype event =
    ValueChange string
  | CheckedChange todo
  | Click todo
  | GetAllSuccess "string list" "todo list"
  | GetAllError "string list"
  | UpdateSuccess
  | UpdateError
  | DeleteSuccess
  | DeleteError

fun step :: "view \<Rightarrow> event \<Rightarrow> view \<times> request list" where
  "step s (ValueChange v) =
     (let s' = handleTabChange v s
      in if statuses (activeTab s') = statuses (activeTab s) then (s', []) else fetch_input s')"
| "step s (CheckedChange t) = (s, [handleCheckboxChange (id_todo t) (status t)])"
| "step s (Click t) = (s, [handleDelete (id_todo t)])"
| "step s (GetAllSuccess k ts) =
     (s\<lparr>results := (results s)(k \<mapsto> ts), fetching := fetching s - {k}\<rparr>, [])"
| "step s (GetAllError k) = (s\<lparr>fetching := fetching s - {k}\<rparr>, [])"
| "step s UpdateSuccess = refetch s"
| "step s UpdateError = (s, [])"
| "step s DeleteSuccess = refetch s"
| "step s DeleteError = (s, [])"

text \<open>
  The component mounts in its initial state, with the fetch of the hook's input sent.
\<close>

definition mount :: "view \<times> request list" where
  "mount = (initial, [refetchTodos initial])"

fun run :: "view \<Rightarrow> event list \<Rightarrow> view" where
  "run s [] = s"
| "run s (e # es) = run (fst (step s e)) es"

text \<open>
  A gesture can only come from a control that is on the screen: a tab change carries the
  value of one of the rendered triggers, a checkbox change or a click on delete belongs
  to the row of one of the rendered todos. The remote service may answer anything.
\<close>

fun enabled :: "view \<Rightarrow> event \<Rightarrow> bool" where
  "enabled s (ValueChange v) = (v \<in> set (map trigger_value (triggers (render s))))"
| "enabled s (CheckedChange t) = (t \<in> set (todos s))"
| "enabled s (Click t) = (t \<in> set (todos s))"
| "enabled s _ = True"

fun feasible :: "view \<Rightarrow> event list \<Rightarrow> bool" where
  "feasible s [] = True"
| "feasible s (e # es) = (enabled s e \<and> feasible (fst (step s e)) es)"

text \<open>
  The result of the last fetch that succeeded for an input \<open>k\<close> in a sequence of events,
  read off the sequence itself: the latest \<open>GetAllSuccess\<close> for \<open>k\<close>, if there is one.
\<close>

fun fetched :: "string list \<Rightarrow> event \<Rightarrow> todo list option" where
  "fetched k (GetAllSuccess k' ts) = (if k' = k then Some ts else None)"
| "fetched k _ = None"

definition last_successful_fetch :: "event list \<Rightarrow> string list \<Rightarrow> todo list option" where
  "last_successful_fetch es k =
     (case List.map_filter (fetched k) (rev es) of [] \<Rightarrow> None | ts # _ \<Rightarrow> Some ts)"

text \<open>
  The remote service keeps its contract for \<open>listTodos\<close> when every todo it returns for
  a query has one of the statuses the query asked for.
\<close>

fun honest :: "event \<Rightarrow> bool" where
  "honest (GetAllSuccess k ts) = list_all (\<lambda>t. status_lit (status t) \<in> set k) ts"
| "honest _ = True"

text \<open>
  The tab that is selected after a sequence of events, read off the sequence itself: the
  value of the latest change of the tabs, or \<open>all\<close> when there has been none.
\<close>

fun selected :: "event \<Rightarrow> string option" where
  "selected (ValueChange v) = Some v"
| "selected _ = None"

definition selected_tab :: "event list \<Rightarrow> string" where
  "selected_tab es = (case List.map_filter selected (rev es) of [] \<Rightarrow> ''all'' | v # _ \<Rightarrow> v)"

text \<open>
  The declared type of \<open>activeTab\<close>, \<open>'all' | 'pending' | 'completed'\<close>, as a predicate on
  the string the state holds at run time.
\<close>

definition tab_value :: "string \<Rightarrow> bool" where
  "tab_value v = (v = ''all'' \<or> v = ''pending'' \<or> v = ''completed'')"

section \<open>Properties\<close>

subsection \<open>Runs\<close>

lemma start_fetch_fields [simp]:
  "activeTab (fst (start_fetch s)) = activeTab s"
  "results (fst (start_fetch s)) = results s"
  "fetching (fst (start_fetch s)) = insert (statuses (activeTab s)) (fetching s)"
  "snd (start_fetch s) = [GetAll (statuses (activeTab s))]"
  by (simp_all add: start_fetch_def refetchTodos_def)

lemma fetch_input_fields [simp]:
  "activeTab (fst (fetch_input s)) = activeTab s"
  "results (fst (fetch_input s)) = results s"
  by (simp_all add: fetch_input_def)

lemma refetch_fields [simp]:
  "activeTab (fst (refetch s)) = activeTab s"
  "results (fst (refetch s)) = results s"
  by (simp_all add: refetch_def)

lemma refetch_in_flight: "statuses (activeTab s) \<in> fetching (fst (refetch s))"
  by (simp add: refetch_def)

lemma refetch_sends:
  "snd (refetch s) =
     (if statuses (activeTab s) \<in> fetching s \<and> data s = None then []
      else [GetAll (statuses (activeTab s))])"
  by (simp add: refetch_def)

lemma run_append: "run s (es @ es') = run (run s es) es'"
  by (induction es arbitrary: s) auto

lemma results_step:
  "results (fst (step s e)) k = (case fetched k e of Some ts \<Rightarrow> Some ts | None \<Rightarrow> results s k)"
  by (cases e) (auto simp: handleTabChange_def Let_def)

lemma activeTab_step:
  "activeTab (fst (step s e)) = (case selected e of Some v \<Rightarrow> v | None \<Rightarrow> activeTab s)"
  by (cases e) (auto simp: handleTabChange_def Let_def)

lemma activeTab_run: "activeTab (run initial es) = selected_tab es"
proof (induction es rule: rev_induct)
  case Nil
  show ?case by (simp add: initial_def selected_tab_def map_filter_simps)
next
  case (snoc e es)
  then show ?case
    by (simp add: run_append activeTab_step selected_tab_def map_filter_simps
        split: option.splits list.splits)
qed

lemma results_run: "results (run initial es) k = last_successful_fetch es k"
proof (induction es rule: rev_induct)
  case Nil
  show ?case by (simp add: initial_def last_successful_fetch_def map_filter_simps)
next
  case (snoc e es)
  then show ?case
    by (simp add: run_append results_step last_successful_fetch_def map_filter_simps
        split: option.splits list.splits)
qed

lemma honest_step:
  assumes "honest e"
    and "\<And>k ts. results s k = Some ts \<Longrightarrow> list_all (\<lambda>t. status_lit (status t) \<in> set k) ts"
    and "results (fst (step s e)) k = Some ts"
  shows "list_all (\<lambda>t. status_lit (status t) \<in> set k) ts"
  using assms by (cases e) (auto simp: handleTabChange_def Let_def split: if_splits)

lemma honest_run:
  assumes "list_all honest es"
    and "\<And>k ts. results s k = Some ts \<Longrightarrow> list_all (\<lambda>t. status_lit (status t) \<in> set k) ts"
    and "results (run s es) k = Some ts"
  shows "list_all (\<lambda>t. status_lit (status t) \<in> set k) ts"
  using assms
proof (induction es arbitrary: s)
  case Nil
  then show ?case by simp
next
  case (Cons e es)
  from Cons.prems(1) have he: "honest e" and hes: "list_all honest es" by simp_all
  have "\<And>k ts. results (fst (step s e)) k = Some ts
      \<Longrightarrow> list_all (\<lambda>t. status_lit (status t) \<in> set k) ts"
    by (rule honest_step [OF he Cons.prems(2)])
  moreover from Cons.prems(3) have "results (run (fst (step s e)) es) k = Some ts" by simp
  ultimately show ?case by (rule Cons.IH [OF hes])
qed

lemma enabled_ValueChange: "enabled s (ValueChange v) = tab_value v"
  by (auto simp: render_def render_triggers_def tab_value_def)

lemma feasible_tab_value:
  "tab_value (activeTab s) \<Longrightarrow> feasible s es \<Longrightarrow> tab_value (activeTab (run s es))"
proof (induction es arbitrary: s)
  case Nil
  then show ?case by simp
next
  case (Cons e es)
  from Cons.prems have en: "enabled s e" and fe: "feasible (fst (step s e)) es" by simp_all
  have "tab_value (activeTab (fst (step s e)))"
  proof (cases e)
    case (ValueChange v)
    with en have "tab_value v" by (simp only: enabled_ValueChange)
    with ValueChange show ?thesis by (simp add: handleTabChange_def Let_def)
  qed (use Cons.prems(1) in simp_all)
  from Cons.IH [OF this fe] show ?case by simp
qed

subsection \<open>Printing a number\<close>

lemma digit_not_minus:
  assumes "n < 10"
  shows "''0123456789'' ! n \<noteq> CHR ''-''"
proof -
  from assms have "n < length ''0123456789''" by simp
  then have "''0123456789'' ! n \<in> set ''0123456789''" by (rule nth_mem)
  then show ?thesis by auto
qed

lemma digit_inj:
  assumes "n < 10" "m < 10" "''0123456789'' ! n = ''0123456789'' ! m"
  shows "n = m"
proof -
  have d: "distinct ''0123456789''" by simp
  have l: "length ''0123456789'' = 10" by simp
  from assms l have "n < length ''0123456789''" "m < length ''0123456789''" by simp_all
  with d assms(3) show ?thesis by (simp only: nth_eq_iff_index_eq)
qed

lemma digits_nonempty: "digits n \<noteq> []"
  by (subst digits.simps) simp

lemma digits_inj: "digits n = digits m \<Longrightarrow> n = m"
proof (induction n arbitrary: m rule: digits.induct)
  case (1 n)
  show ?case
  proof (cases "n < 10")
    case True
    then have dn: "digits n = [''0123456789'' ! n]" by (subst digits.simps) simp
    show ?thesis
    proof (cases "m < 10")
      case mt: True
      then have "digits m = [''0123456789'' ! m]" by (subst digits.simps) simp
      with dn "1.prems" True mt show ?thesis by (auto intro: digit_inj)
    next
      case mf: False
      then have "digits m = digits (m div 10) @ [''0123456789'' ! (m mod 10)]"
        by (subst digits.simps) simp
      with dn "1.prems" digits_nonempty [of "m div 10"] show ?thesis
        by (cases "digits (m div 10)") auto
    qed
  next
    case False
    then have dn: "digits n = digits (n div 10) @ [''0123456789'' ! (n mod 10)]"
      by (subst digits.simps) simp
    show ?thesis
    proof (cases "m < 10")
      case mt: True
      then have "digits m = [''0123456789'' ! m]" by (subst digits.simps) simp
      with dn "1.prems" digits_nonempty [of "n div 10"] show ?thesis
        by (cases "digits (n div 10)") auto
    next
      case mf: False
      then have dm: "digits m = digits (m div 10) @ [''0123456789'' ! (m mod 10)]"
        by (subst digits.simps) simp
      from dn dm "1.prems" have e1: "digits (n div 10) = digits (m div 10)"
        and e2: "''0123456789'' ! (n mod 10) = ''0123456789'' ! (m mod 10)" by auto
      from "1.IH" [OF False e1] have q: "n div 10 = m div 10" .
      have "n mod 10 = m mod 10" by (rule digit_inj [OF _ _ e2]) simp_all
      with q show ?thesis by (metis div_mult_mod_eq)
    qed
  qed
qed

lemma digits_no_minus: "hd (digits n) \<noteq> CHR ''-''"
proof (induction n rule: digits.induct)
  case (1 n)
  show ?case
  proof (cases "n < 10")
    case True
    then have "digits n = [''0123456789'' ! n]" by (subst digits.simps) simp
    with True show ?thesis by (simp add: digit_not_minus)
  next
    case False
    then have "digits n = digits (n div 10) @ [''0123456789'' ! (n mod 10)]"
      by (subst digits.simps) simp
    with "1.IH" [OF False] digits_nonempty [of "n div 10"] show ?thesis by simp
  qed
qed

lemma String_number_inj: "String_number a = String_number b \<longleftrightarrow> a = b"
proof
  assume e: "String_number a = String_number b"
  show "a = b"
  proof (cases "a < 0")
    case True
    show ?thesis
    proof (cases "b < 0")
      case bt: True
      with True e have "digits (nat (- a)) = digits (nat (- b))" by (simp add: String_number_def)
      then have "nat (- a) = nat (- b)" by (rule digits_inj)
      with True bt show ?thesis by simp
    next
      case bf: False
      with True e have "CHR ''-'' # digits (nat (- a)) = digits (nat b)" by (simp add: String_number_def)
      then have "hd (digits (nat b)) = CHR ''-''" by (metis list.sel(1))
      with digits_no_minus show ?thesis by blast
    qed
  next
    case False
    show ?thesis
    proof (cases "b < 0")
      case bt: True
      with False e have "digits (nat a) = CHR ''-'' # digits (nat (- b))" by (simp add: String_number_def)
      then have "hd (digits (nat a)) = CHR ''-''" by (metis list.sel(1))
      with digits_no_minus show ?thesis by blast
    next
      case bf: False
      with False e have "digits (nat a) = digits (nat b)" by (simp add: String_number_def)
      then have "nat a = nat b" by (rule digits_inj)
      with False bf show ?thesis by simp
    qed
  qed
qed simp

subsection \<open>The claims\<close>

text \<open>
  C1. The statuses the view asks the remote service for are those the tab stands for:
  \<open>all\<close> asks for pending and completed, \<open>pending\<close> for pending only, \<open>completed\<close> for
  completed only, and every fetch of the view carries the statuses of the tab that is
  active. Hence, when the service returns only todos with a status it was asked for,
  every todo on the screen has one of the statuses of the active tab.
\<close>

theorem requested_statuses:
  "set (statuses ''all'') = {''pending'', ''completed''} \<and>
   set (statuses ''pending'') = {''pending''} \<and>
   set (statuses ''completed'') = {''completed''} \<and>
   refetchTodos s = GetAll (statuses (activeTab s)) \<and>
   (list_all honest es \<longrightarrow>
      (\<forall>t \<in> set (todos (run initial es)).
         status_lit (status t) \<in> set (statuses (activeTab (run initial es)))))"
proof -
  have "status_lit (status t) \<in> set (statuses (activeTab (run initial es)))"
    if h: "list_all honest es" and t: "t \<in> set (todos (run initial es))" for t
  proof -
    from t have "\<exists>ts. results (run initial es) (statuses (activeTab (run initial es))) = Some ts
        \<and> t \<in> set ts"
      by (cases "results (run initial es) (statuses (activeTab (run initial es)))")
        (simp_all add: todos_def data_def)
    then obtain ts
      where r: "results (run initial es) (statuses (activeTab (run initial es))) = Some ts"
        and m: "t \<in> set ts"
      by blast
    have "list_all (\<lambda>t. status_lit (status t) \<in> set (statuses (activeTab (run initial es)))) ts"
      by (rule honest_run [OF h _ r]) (simp add: initial_def)
    with m show ?thesis by (simp add: list_all_iff)
  qed
  then show ?thesis by (auto simp: statuses_def refetchTodos_def)
qed

theorem requested_statuses_witness:
  "list_all honest
     [ValueChange ''pending'',
      GetAllSuccess [''pending''] [\<lparr>id_todo = 2, body = ''Buy milk'', status = Pending\<rparr>]] \<and>
   todos (run initial
     [ValueChange ''pending'',
      GetAllSuccess [''pending''] [\<lparr>id_todo = 2, body = ''Buy milk'', status = Pending\<rparr>]])
     = [\<lparr>id_todo = 2, body = ''Buy milk'', status = Pending\<rparr>] \<and>
   status_lit (status \<lparr>id_todo = 2, body = ''Buy milk'', status = Pending\<rparr>)
     \<in> set (statuses (activeTab (run initial
       [ValueChange ''pending'',
        GetAllSuccess [''pending''] [\<lparr>id_todo = 2, body = ''Buy milk'', status = Pending\<rparr>]])))"
  using requested_statuses [where es = "[ValueChange ''pending'',
      GetAllSuccess [''pending''] [\<lparr>id_todo = 2, body = ''Buy milk'', status = Pending\<rparr>]]"]
  by (simp add: initial_def handleTabChange_def statuses_def todos_def data_def Let_def)

text \<open>
  C2. Toggling a todo asks the remote service to set the opposite of the status the todo
  has: completed for a pending todo, pending for a completed one. This is the request the
  checkbox of the todo's row sends when it changes.
\<close>

theorem toggle_requests_opposite:
  "handleCheckboxChange i Pending = UpdateTodoStatus i Completed \<and>
   handleCheckboxChange i Completed = UpdateTodoStatus i Pending \<and>
   checkbox_onCheckedChange (render_row t) = handleCheckboxChange (id_todo t) (status t) \<and>
   step s (CheckedChange t) =
     (s, [UpdateTodoStatus (id_todo t) (case status t of Pending \<Rightarrow> Completed | Completed \<Rightarrow> Pending)])"
  by (cases "status t") (simp_all add: handleCheckboxChange_def render_row_def)




text \<open>
  C4. In the row of every todo, the checkbox is checked exactly when the todo's status is
  completed, and the label is struck through exactly when the todo's status is completed.
  The rows on the screen are the rows of the todos the view holds, in their order.
\<close>

theorem row_reflects_status:
  "rows (render s) = map render_row (todos s) \<and>
   checkbox_checked (render_row t) = (status t = Completed) \<and>
   strike_through (render_row t) = (status t = Completed)"
  by (simp add: render_def render_row_def strike_through_def has_class_def)

text \<open>
  C5. A failed status update or delete changes nothing in the view and sends nothing (no
  retry, no rollback); sending a mutation changes nothing in the view either (no
  optimistic change). After any sequence of events, the data the view shows is the result
  of the last fetch that succeeded for the query it is on, or none if no fetch has.
\<close>

theorem mutation_failure_unchanged:
  "step s UpdateError = (s, []) \<and>
   step s DeleteError = (s, []) \<and>
   fst (step s (CheckedChange t)) = s \<and>
   fst (step s (Click t)) = s \<and>
   data (run initial es) = last_successful_fetch es (statuses (activeTab (run initial es)))"
  by (simp add: data_def results_run)

text \<open>
  C6. \<open>activeTab\<close> starts as \<open>all\<close>, and every event other than a change of the tabs' value
  (every fetch settling, status toggle and delete, and their outcomes) leaves it as it is.
\<close>

theorem activeTab_frame:
  "activeTab initial = ''all'' \<and>
   ((\<forall>v. e \<noteq> ValueChange v) \<longrightarrow> activeTab (fst (step s e)) = activeTab s)"
  by (cases e) (simp_all add: initial_def)

theorem activeTab_frame_witness:
  "(\<forall>v. DeleteSuccess \<noteq> ValueChange v) \<and>
   activeTab (fst (step initial DeleteSuccess)) = activeTab initial"
  using activeTab_frame [of DeleteSuccess initial] by simp

text \<open>
  C7. The values the tabs can hand to \<open>handleTabChange\<close> are exactly \<open>all\<close>, \<open>pending\<close> and
  \<open>completed\<close>; \<open>handleTabChange\<close> stores the value it is given as \<open>activeTab\<close> and changes
  nothing else; so in every state the view reaches from its initial state through
  events of its controls and answers of the service, \<open>activeTab\<close> is one of the three.
\<close>

theorem activeTab_valid:
  "enabled s (ValueChange v) = tab_value v \<and>
   handleTabChange v s = s\<lparr>activeTab := v\<rparr> \<and>
   (feasible initial es \<longrightarrow> tab_value (activeTab (run initial es)))"
proof -
  have "tab_value (activeTab initial)" by (simp add: initial_def tab_value_def)
  then have "feasible initial es \<longrightarrow> tab_value (activeTab (run initial es))"
    by (blast intro: feasible_tab_value)
  with enabled_ValueChange [of s v] show ?thesis
    by (simp add: handleTabChange_def del: enabled.simps)
qed

theorem activeTab_valid_witness:
  "feasible initial [ValueChange ''pending'', UpdateSuccess, ValueChange ''completed''] \<and>
   activeTab (run initial [ValueChange ''pending'', UpdateSuccess, ValueChange ''completed''])
     = ''completed'' \<and>
   tab_value (activeTab (run initial [ValueChange ''pending'', UpdateSuccess, ValueChange ''completed'']))"
  using activeTab_valid [where es = "[ValueChange ''pending'', UpdateSuccess, ValueChange ''completed'']"]
  by (simp add: render_def render_triggers_def handleTabChange_def Let_def)

text \<open>
  C8. While the view has no data for its query (none has arrived, as in the initial state,
  or the fetch failed), \<open>todos\<close> is the empty list and the view renders no row; rendering
  has no failing case.
\<close>

theorem no_data_renders_empty:
  "data initial = None \<and>
   (data s = None \<longrightarrow>
      todos s = [] \<and> rows (render s) = [] \<and>
      rows (render (fst (step s (GetAllError k)))) = [])"
  by (simp add: initial_def data_def todos_def render_def)

theorem no_data_renders_empty_witness:
  "data initial = None \<and> todos initial = [] \<and> rows (render initial) = [] \<and>
   rows (render (fst (step initial (GetAllError (statuses ''all''))))) = []"
  using no_data_renders_empty [of initial "statuses ''all''"] by simp

text \<open>
  C9. In the row of every todo, the id of the checkbox and the \<open>htmlFor\<close> of the label are
  both the todo's id printed as a string, which is different for different ids; the delete
  button has the accessible name \<open>Delete todo\<close> and its only child is the icon.
\<close>

theorem row_accessibility:
  "checkbox_id (render_row t) = String_number (id_todo t) \<and>
   label_htmlFor (render_row t) = String_number (id_todo t) \<and>
   (label_htmlFor (render_row t) = checkbox_id (render_row t') \<longleftrightarrow> id_todo t = id_todo t') \<and>
   button_aria_label (render_row t) = ''Delete todo'' \<and>
   button_children (render_row t) = [Svg XMarkIcon]"
  by (simp add: render_row_def String_number_inj)

text \<open>
  C10. The status a toggle asks for is the opposite of the todo's status, and the opposite
  of the opposite is the status itself: toggling the todo again, once it has the status
  asked for, asks for the status it had at first.
\<close>

theorem toggle_involution:
  "\<exists>st'. handleCheckboxChange i st = UpdateTodoStatus i st' \<and>
         handleCheckboxChange i st' = UpdateTodoStatus i st"
  by (cases st) (simp_all add: handleCheckboxChange_def)

end
